theory Spec2Isabelle
  imports Main
begin

section \<open>InterSearch: the fallback search gateway of \<open>server.mjs\<close>\<close>

text \<open>
  The server answers \<open>GET /search\<close> by trying a result cache, a primary index, a web
  search and a chat completion in that order, and \<open>POST /ai\<close> by one chat completion.
  The handlers and adapters below follow \<open>server.mjs\<close> line by line. What the file
  leaves to its platform is made explicit: the values JavaScript computes with, the
  answers of the upstream services (\<open>fetch\<close>), the clock, and the \<open>lru-cache\<close>
  package.
\<close>

subsection \<open>JavaScript values\<close>

text \<open>
  A string is a list of code units; the model ranges over the code units below 256.
  A parsed number is kept by the two things this program can observe of it: whether it
  is zero (falsy under \<open>||\<close>) and the text \<open>Number.prototype.toString\<close> gives it.
\<close>

datatype jsnum = JsNum (num_zero: bool) (num_text: string)

text \<open>What \<open>JSON.parse\<close> returns. An object holds its own properties, one entry per key.\<close>

datatype json =
    JNull
  | JBool bool
  | JNum jsnum
  | JStr string
  | JArr "json list"
  | JObj "(string \<times> json) list"

text \<open>
  A value an expression can have: \<open>undefined\<close>, a built-in function (by name), or a
  parsed value.
\<close>

datatype jsval = Undefined | Native string | J json

text \<open>One constructor for each way a call of this program throws.\<close>

datatype error =
    TypeError                   \<comment> \<open>a property read of \<open>null\<close>, or a call of something that is no function\<close>
  | FetchFailed                 \<comment> \<open>\<open>fetch\<close> rejects: no response arrived\<close>
  | InvalidJson                 \<comment> \<open>\<open>res.json()\<close> rejects: the body is no JSON text\<close>
  | GoogleNotConfigured         \<comment> \<open>"Google API key or CX not configured."\<close>
  | GoogleApiError nat          \<comment> \<open>"Google API error <status>"\<close>
  | OpenAIKeyNotSet             \<comment> \<open>"OPENAI_API_KEY not set."\<close>
  | OpenAIError nat string      \<comment> \<open>"OpenAI error <status>: <body text>"\<close>

definition and_then :: "error + 'a \<Rightarrow> ('a \<Rightarrow> error + 'b) \<Rightarrow> error + 'b" where
  "and_then r f = (case r of Inl e \<Rightarrow> Inl e | Inr v \<Rightarrow> f v)"

fun map_err :: "('a \<Rightarrow> error + 'b) \<Rightarrow> 'a list \<Rightarrow> error + 'b list" where
  "map_err f [] = Inr []"
| "map_err f (x # xs) =
     (case f x of
        Inl e \<Rightarrow> Inl e
      | Inr y \<Rightarrow> (case map_err f xs of Inl e \<Rightarrow> Inl e | Inr ys \<Rightarrow> Inr (y # ys)))"

text \<open>
  \<open>v.k\<close> for a parsed value \<open>v\<close>, for the property names this program reads
  (\<open>items\<close>, \<open>title\<close>, \<open>snippet\<close>, \<open>link\<close>, \<open>choices\<close>, \<open>message\<close>, \<open>content\<close>,
  \<open>prompt\<close>). Reading a property of \<open>null\<close> throws; a missing property is
  \<open>undefined\<close>; of the names above only \<open>link\<close> is inherited, by strings
  (\<open>String.prototype.link\<close>).
\<close>

definition get_prop :: "json \<Rightarrow> string \<Rightarrow> error + jsval" where
  "get_prop v k =
     (case v of
        JNull \<Rightarrow> Inl TypeError
      | JObj kvs \<Rightarrow> Inr (case map_of kvs k of None \<Rightarrow> Undefined | Some x \<Rightarrow> J x)
      | JStr s \<Rightarrow> Inr (if k = ''link'' then Native ''link'' else Undefined)
      | _ \<Rightarrow> Inr Undefined)"

text \<open>\<open>x?.k\<close>: \<open>undefined\<close> when \<open>x\<close> is \<open>null\<close> or \<open>undefined\<close>, else \<open>x.k\<close>.\<close>

definition opt_prop :: "jsval \<Rightarrow> string \<Rightarrow> jsval" where
  "opt_prop x k =
     (case x of
        Undefined \<Rightarrow> Undefined
      | Native f \<Rightarrow> Undefined
      | J v \<Rightarrow> (case get_prop v k of Inl e \<Rightarrow> Undefined | Inr y \<Rightarrow> y))"

text \<open>\<open>x?.[0]\<close>: the first element of an array, the first character of a string, the
  property \<open>"0"\<close> of an object.\<close>

definition opt_index0 :: "jsval \<Rightarrow> jsval" where
  "opt_index0 x =
     (case x of
        J (JArr xs) \<Rightarrow> (case xs of [] \<Rightarrow> Undefined | y # ys \<Rightarrow> J y)
      | J (JStr s) \<Rightarrow> (case s of [] \<Rightarrow> Undefined | c # cs \<Rightarrow> J (JStr [c]))
      | J (JObj kvs) \<Rightarrow> (case map_of kvs ''0'' of None \<Rightarrow> Undefined | Some y \<Rightarrow> J y)
      | _ \<Rightarrow> Undefined)"

text \<open>
  Conversion to a string, as \<open>toString()\<close> and a template literal do it. An array joins
  its elements with commas, \<open>null\<close> elements as the empty string; an object is
  \<open>[object Object]\<close>, unless it has an own property \<open>toString\<close>, which no parsed
  value can make callable.
\<close>

primrec json_string :: "json \<Rightarrow> error + string"
  and json_join :: "json list \<Rightarrow> error + string" where
  "json_string JNull = Inr ''null''"
| "json_string (JBool b) = Inr (if b then ''true'' else ''false'')"
| "json_string (JNum n) = Inr (num_text n)"
| "json_string (JStr s) = Inr s"
| "json_string (JArr xs) = json_join xs"
| "json_string (JObj kvs) =
     (if ''toString'' \<in> fst ` set kvs then Inl TypeError else Inr ''[object Object]'')"
| "json_join [] = Inr []"
| "json_join (x # xs) =
     (case (if x = JNull then Inr [] else json_string x) of
        Inl e \<Rightarrow> Inl e
      | Inr s \<Rightarrow>
          (if xs = [] then Inr s
           else (case json_join xs of Inl e \<Rightarrow> Inl e | Inr r \<Rightarrow> Inr (s @ '','' @ r))))"

definition js_string :: "jsval \<Rightarrow> error + string" where
  "js_string x =
     (case x of
        Undefined \<Rightarrow> Inr ''undefined''
      | Native f \<Rightarrow> Inr (''function '' @ f @ ''() { [native code] }'')
      | J v \<Rightarrow> json_string v)"

text \<open>The values \<open>||\<close> and \<open>!\<close> take for false.\<close>

definition falsy :: "jsval \<Rightarrow> bool" where
  "falsy x =
     (case x of
        Undefined \<Rightarrow> True
      | Native f \<Rightarrow> False
      | J JNull \<Rightarrow> True
      | J (JBool b) \<Rightarrow> \<not> b
      | J (JNum n) \<Rightarrow> num_zero n
      | J (JStr s) \<Rightarrow> s = []
      | J (JArr xs) \<Rightarrow> False
      | J (JObj kvs) \<Rightarrow> False)"

text \<open>\<open>String.prototype.trim\<close>: white space and line terminators, off both ends.\<close>

definition is_ws :: "char \<Rightarrow> bool" where
  "is_ws c = (c \<in> set [CHR 0x09, CHR 0x0A, CHR 0x0B, CHR 0x0C, CHR 0x0D, CHR 0x20, CHR 0xA0])"

definition trim :: "string \<Rightarrow> string" where
  "trim s = rev (dropWhile is_ws (rev (dropWhile is_ws s)))"

text \<open>\<open>cleanText(t)\<close>: \<open>(t || "").toString().trim()\<close>.\<close>

definition cleanText :: "jsval \<Rightarrow> error + string" where
  "cleanText t =
     (case js_string (if falsy t then J (JStr []) else t) of
        Inl e \<Rightarrow> Inl e
      | Inr s \<Rightarrow> Inr (trim s))"

subsection \<open>Upstream services and configuration\<close>

datatype message = Message (role: string) (content: string)

record chat_body =
  model :: string
  messages :: "message list"
  temperature :: string
  max_tokens :: nat

text \<open>A request as \<open>fetch\<close> receives it, before \<open>URL\<close> and \<open>JSON.stringify\<close> serialise it.\<close>

record request =
  url :: string
  http_method :: string
  search_params :: "(string \<times> string) list"
  headers :: "(string \<times> string) list"
  body :: "chat_body option"

text \<open>A response: its status, its body as text (\<open>res.text()\<close>) and as \<open>res.json()\<close> parses
  it, \<open>None\<close> when the text is no JSON.\<close>

record http_response =
  status :: nat
  body_text :: string
  body_json :: "json option"

definition ok :: "http_response \<Rightarrow> bool" where
  "ok res = (200 \<le> status res \<and> status res \<le> 299)"

text \<open>The process environment and the network: \<open>fetch\<close> gives \<open>None\<close> when it rejects.\<close>

record env =
  OPENAI_API_KEY :: string
  GOOGLE_API_KEY :: string
  GOOGLE_CX :: string
  fetch :: "request \<Rightarrow> http_response option"

record item =
  title :: jsval
  snippet :: jsval
  link :: jsval
  source :: string

text \<open>The three result objects of the \<open>/search\<close> handler: \<open>{source: "primary", results}\<close>,
  \<open>{source: "google", results}\<close> and \<open>{source: "openai", answer}\<close>.\<close>

datatype outcome = Primary "item list" | Google "item list" | OpenAI string

text \<open>What a handler does besides replying, in the order it does it.\<close>

datatype event =
    CacheHas string
  | CacheGet string
  | CacheSet string outcome
  | CallPrimary string
  | CallGoogle string
  | CallOpenAI string "item list"
  | Fetch request

fun is_adapter_event :: "event \<Rightarrow> bool" where
  "is_adapter_event (CallPrimary q) = True"
| "is_adapter_event (CallGoogle q) = True"
| "is_adapter_event (CallOpenAI q c) = True"
| "is_adapter_event (Fetch r) = True"
| "is_adapter_event e = False"

subsection \<open>The adapters\<close>

text \<open>\<open>primarySearch\<close>: the stub of the local index.\<close>

definition primarySearch :: "string \<Rightarrow> error + item list" where
  "primarySearch q = Inr []"

definition google_request :: "env \<Rightarrow> string \<Rightarrow> request" where
  "google_request env q =
     \<lparr>url = ''https://www.googleapis.com/customsearch/v1'',
      http_method = ''GET'',
      search_params =
        [(''key'', GOOGLE_API_KEY env), (''cx'', GOOGLE_CX env), (''q'', q), (''num'', ''5'')],
      headers = [],
      body = None\<rparr>"

definition google_item :: "json \<Rightarrow> error + item" where
  "google_item it =
     and_then (get_prop it ''title'') (\<lambda>t.
     and_then (get_prop it ''snippet'') (\<lambda>s.
     and_then (get_prop it ''link'') (\<lambda>l.
       Inr \<lparr>title = t, snippet = s, link = l, source = ''google''\<rparr>)))"

text \<open>\<open>(data.items || []).map(...)\<close>: only an array has \<open>map\<close>.\<close>

definition google_items :: "json \<Rightarrow> error + item list" where
  "google_items data =
     and_then (get_prop data ''items'') (\<lambda>v.
       if falsy v then Inr []
       else (case v of J (JArr xs) \<Rightarrow> map_err google_item xs | _ \<Rightarrow> Inl TypeError))"

text \<open>An adapter returns its result, or the error it throws, and the requests it sent.\<close>

definition googleSearch :: "env \<Rightarrow> string \<Rightarrow> (error + item list) \<times> event list" where
  "googleSearch env q =
     (if GOOGLE_API_KEY env = [] \<or> GOOGLE_CX env = [] then (Inl GoogleNotConfigured, [])
      else
        (case fetch env (google_request env q) of
           None \<Rightarrow> Inl FetchFailed
         | Some res \<Rightarrow>
             if \<not> ok res then Inl (GoogleApiError (status res))
             else (case body_json res of
                     None \<Rightarrow> Inl InvalidJson
                   | Some data \<Rightarrow> google_items data),
         [Fetch (google_request env q)]))"

definition context_message :: "item \<Rightarrow> error + message" where
  "context_message c =
     and_then (js_string (title c)) (\<lambda>t.
     and_then (js_string (snippet c)) (\<lambda>s.
     and_then (js_string (link c)) (\<lambda>l.
       Inr (Message ''system'' (''Context: '' @ t @ [CHR 0x0A] @ s @ [CHR 0x0A] @ l)))))"

definition chat_request :: "env \<Rightarrow> string \<Rightarrow> message list \<Rightarrow> request" where
  \<open>chat_request env q ctx =
     \<lparr>url = ''https://api.openai.com/v1/chat/completions'',
      http_method = ''POST'',
      search_params = [],
      headers =
        [(''Authorization'', ''Bearer '' @ OPENAI_API_KEY env),
         (''Content-Type'', ''application/json'')],
      body = Some
        \<lparr>model = ''gpt-4o-mini'',
         messages =
           Message ''system''
             ''You are "I", an assistant that gives clear, factual answers using provided context when possible.''
           # ctx @ [Message ''user'' q],
         temperature = ''0.3'',
         max_tokens = 800\<rparr>\<rparr>\<close>

text \<open>\<open>data?.choices?.[0]?.message?.content ?? ""\<close>\<close>

definition chat_content :: "json \<Rightarrow> jsval" where
  "chat_content data =
     (let c = opt_prop (opt_prop (opt_index0 (opt_prop (J data) ''choices'')) ''message'') ''content''
      in if c = Undefined \<or> c = J JNull then J (JStr []) else c)"

record answer =
  "text" :: string
  raw :: json

definition openaiChatAnswer ::
  "env \<Rightarrow> string \<Rightarrow> item list \<Rightarrow> (error + answer) \<times> event list" where
  "openaiChatAnswer env q context =
     (if OPENAI_API_KEY env = [] then (Inl OpenAIKeyNotSet, [])
      else
        (case map_err context_message context of
           Inl e \<Rightarrow> (Inl e, [])
         | Inr ctx \<Rightarrow>
             ((case fetch env (chat_request env q ctx) of
                 None \<Rightarrow> Inl FetchFailed
               | Some res \<Rightarrow>
                   if \<not> ok res then Inl (OpenAIError (status res) (body_text res))
                   else (case body_json res of
                           None \<Rightarrow> Inl InvalidJson
                         | Some data \<Rightarrow>
                             and_then (cleanText (chat_content data)) (\<lambda>t.
                               Inr \<lparr>text = t, raw = data\<rparr>))),
              [Fetch (chat_request env q ctx)])))"

subsection \<open>The result cache\<close>

text \<open>
  Modelled from the spec: the \<open>lru-cache\<close> package, which \<open>server.mjs\<close> imports and
  whose code is not part of the repository. The cache is built once, by
  \<open>new LRU({ max: 500, ttl: 1000 * 60 * 5 })\<close>. It maps a query to an outcome and the time
  of its storing, holds at most 500 entries, treats an entry older than the time to
  live as absent (lazy expiry), refreshes the recency of an entry on a successful
  \<open>get\<close>, and evicts the least recently used entry when an insertion exceeds the bound.
  The entries are kept most recently used first.
\<close>

type_synonym lru = "(string \<times> outcome \<times> nat) list"

definition max_entries :: nat where
  "max_entries = 500"

definition ttl :: nat where
  "ttl = 1000 * 60 * 5"

definition stale :: "nat \<Rightarrow> nat \<Rightarrow> bool" where
  "stale now start = (start + ttl < now)"

definition lru_delete :: "lru \<Rightarrow> string \<Rightarrow> lru" where
  "lru_delete c k = filter (\<lambda>e. fst e \<noteq> k) c"

definition lru_has :: "nat \<Rightarrow> lru \<Rightarrow> string \<Rightarrow> bool" where
  "lru_has now c k =
     (case map_of c k of None \<Rightarrow> False | Some (v, start) \<Rightarrow> \<not> stale now start)"

definition lru_get :: "nat \<Rightarrow> lru \<Rightarrow> string \<Rightarrow> outcome option \<times> lru" where
  "lru_get now c k =
     (case map_of c k of
        None \<Rightarrow> (None, c)
      | Some (v, start) \<Rightarrow>
          if stale now start then (None, lru_delete c k)
          else (Some v, (k, v, start) # lru_delete c k))"

definition lru_set :: "nat \<Rightarrow> lru \<Rightarrow> string \<Rightarrow> outcome \<Rightarrow> lru" where
  "lru_set now c k v =
     (let c' = (k, v, now) # lru_delete c k
      in if max_entries < length c' then butlast c' else c')"

subsection \<open>The handlers\<close>

text \<open>The state of the process: the cache, and the record of what the handlers did.\<close>

record state =
  cache :: lru
  trace :: "event list"

definition init :: state where
  "init = \<lparr>cache = [], trace = []\<rparr>"

text \<open>\<open>req.query.q\<close>: absent, a string, or an array or object built by the query parser.\<close>

datatype qparam = QMissing | QString string | QOther

text \<open>
  The replies of \<open>GET /search\<close>: \<open>res.json(result)\<close>,
  \<open>res.json({ ...cache.get(q), cached: true })\<close>, status 400, and status 500 with
  the error.
\<close>

datatype search_reply =
    Fresh outcome
  | Cached "outcome option"
  | Bad400
  | Err500 error

text \<open>
  The handler of \<open>GET /search\<close>, with the primary adapter as a parameter \<open>P\<close>. The
  cache is read at time \<open>t\<close> and written at time \<open>t'\<close>, after the adapters have
  answered. \<open>console.warn\<close> and \<open>console.error\<close> are left out.

  \<open>fallback\<close> is the handler from the call of the primary adapter on (the query \<open>q\<close>
  is trimmed, not empty and not in the cache); \<open>search_with\<close> is the whole handler.
\<close>

definition fallback ::
  "(string \<Rightarrow> error + item list) \<Rightarrow> env \<Rightarrow> nat \<Rightarrow> state \<Rightarrow> string \<Rightarrow> search_reply \<times> state" where
  "fallback P env t' st q =
     (let tr1 = trace st @ [CallPrimary q] in
      case P q of
        Inl e \<Rightarrow> (Err500 e, st\<lparr>trace := tr1\<rparr>)
      | Inr primary \<Rightarrow>
          if primary \<noteq> [] then
            (Fresh (Primary primary),
             \<lparr>cache = lru_set t' (cache st) q (Primary primary),
              trace = tr1 @ [CacheSet q (Primary primary)]\<rparr>)
          else
            (let g = googleSearch env q;
                 tr2 = tr1 @ [CallGoogle q] @ snd g;
                 googleResults = (case fst g of Inl e \<Rightarrow> [] | Inr xs \<Rightarrow> xs)
             in
             if googleResults \<noteq> [] then
               (Fresh (Google googleResults),
                \<lparr>cache = lru_set t' (cache st) q (Google googleResults),
                 trace = tr2 @ [CacheSet q (Google googleResults)]\<rparr>)
             else
               (let ai = openaiChatAnswer env q googleResults;
                    tr3 = tr2 @ [CallOpenAI q googleResults] @ snd ai
                in
                case fst ai of
                  Inl e \<Rightarrow> (Err500 e, st\<lparr>trace := tr3\<rparr>)
                | Inr a \<Rightarrow>
                    (Fresh (OpenAI (text a)),
                     \<lparr>cache = lru_set t' (cache st) q (OpenAI (text a)),
                      trace = tr3 @ [CacheSet q (OpenAI (text a))]\<rparr>))))"

definition search_with ::
  "(string \<Rightarrow> error + item list) \<Rightarrow> env \<Rightarrow> nat \<Rightarrow> nat \<Rightarrow> state \<Rightarrow> qparam
     \<Rightarrow> search_reply \<times> state" where
  "search_with P env t t' st qp =
     (case qp of
        QOther \<Rightarrow> (Err500 TypeError, st)
      | _ \<Rightarrow>
        (let q = trim (case qp of QString s \<Rightarrow> s | _ \<Rightarrow> []) in
         if q = [] then (Bad400, st)
         else if lru_has t (cache st) q then
           (Cached (fst (lru_get t (cache st) q)),
            \<lparr>cache = snd (lru_get t (cache st) q),
             trace = trace st @ [CacheHas q, CacheGet q]\<rparr>)
         else fallback P env t' (st\<lparr>trace := trace st @ [CacheHas q]\<rparr>) q))"

text \<open>The handler as the server registers it, on the stub \<open>primarySearch\<close>.\<close>

definition search :: "env \<Rightarrow> nat \<Rightarrow> nat \<Rightarrow> state \<Rightarrow> qparam \<Rightarrow> search_reply \<times> state" where
  "search = search_with primarySearch"

text \<open>The replies of \<open>POST /ai\<close>: \<open>{ assistant: "I", reply }\<close>, status 400, status 500.\<close>

datatype ai_reply = Reply string | AiBad400 | AiErr500 error

definition ai_request :: "env \<Rightarrow> string \<Rightarrow> request" where
  \<open>ai_request env prompt =
     \<lparr>url = ''https://api.openai.com/v1/chat/completions'',
      http_method = ''POST'',
      search_params = [],
      headers =
        [(''Authorization'', ''Bearer '' @ OPENAI_API_KEY env),
         (''Content-Type'', ''application/json'')],
      body = Some
        \<lparr>model = ''gpt-4o-mini'',
         messages =
           [Message ''system''
              ''You are "I", an intelligent assistant similar to ChatGPT. Be accurate, clear, and safe.'',
            Message ''user'' prompt],
         temperature = ''0.3'',
         max_tokens = 1000\<rparr>\<rparr>\<close>

text \<open>The handler of \<open>POST /ai\<close>, on \<open>req.body\<close>. It neither reads nor writes the cache.\<close>

definition ai :: "env \<Rightarrow> jsval \<Rightarrow> ai_reply \<times> event list" where
  "ai env reqbody =
     (case cleanText (opt_prop reqbody ''prompt'') of
        Inl e \<Rightarrow> (AiErr500 e, [])
      | Inr prompt \<Rightarrow>
          if prompt = [] then (AiBad400, [])
          else
            ((case fetch env (ai_request env prompt) of
                None \<Rightarrow> AiErr500 FetchFailed
              | Some r \<Rightarrow>
                  if \<not> ok r then AiErr500 (OpenAIError (status r) (body_text r))
                  else (case body_json r of
                          None \<Rightarrow> AiErr500 InvalidJson
                        | Some data \<Rightarrow>
                            (case cleanText (chat_content data) of
                               Inl e \<Rightarrow> AiErr500 e
                             | Inr reply \<Rightarrow> Reply reply))),
             [Fetch (ai_request env prompt)]))"

subsection \<open>Observing a call\<close>

text \<open>What a call of a handler added to the record of events.\<close>

definition new_events :: "state \<Rightarrow> state \<Rightarrow> event list" where
  "new_events st st' = drop (length (trace st)) (trace st')"

text \<open>The number of results a response of the search service lists under \<open>items\<close>.\<close>

definition listed :: "json \<Rightarrow> nat" where
  "listed data =
     (case data of
        JObj kvs \<Rightarrow> (case map_of kvs ''items'' of Some (JArr xs) \<Rightarrow> length xs | _ \<Rightarrow> 0)
      | _ \<Rightarrow> 0)"

fun is_primary :: "outcome \<Rightarrow> bool" where
  "is_primary (Primary items) = True"
| "is_primary v = False"

definition no_primary :: "lru \<Rightarrow> bool" where
  "no_primary c = list_all (\<lambda>e. \<not> is_primary (fst (snd e))) c"

text \<open>The states the process can be in: only the \<open>/search\<close> handler changes the state.\<close>

inductive reachable :: "state \<Rightarrow> bool" where
  start: "reachable init"
| step: "reachable st \<Longrightarrow> reachable (snd (search env t t' st qp))"

subsection \<open>Example inputs\<close>

text \<open>An environment whose upstream gives one response to every request.\<close>

definition answering :: "string \<Rightarrow> string \<Rightarrow> string \<Rightarrow> http_response \<Rightarrow> env" where
  "answering openai_key google_key google_cx res =
     \<lparr>OPENAI_API_KEY = openai_key, GOOGLE_API_KEY = google_key, GOOGLE_CX = google_cx,
      fetch = (\<lambda>r. Some res)\<rparr>"

definition chat_reply :: "string \<Rightarrow> json" where
  "chat_reply s = JObj [(''choices'', JArr [JObj [(''message'', JObj [(''content'', JStr s)])]])]"

definition paris_response :: http_response where
  \<open>paris_response =
     \<lparr>status = 200,
      body_text = ''{"choices":[{"message":{"content":"Paris."}}]}'',
      body_json = Some (chat_reply ''Paris.'')\<rparr>\<close>

definition empty_object_response :: http_response where
  "empty_object_response = \<lparr>status = 200, body_text = ''{}'', body_json = Some (JObj [])\<rparr>"

definition six_results_response :: http_response where
  \<open>six_results_response =
     \<lparr>status = 200,
      body_text = ''{"items":[{},{},{},{},{},{}]}'',
      body_json = Some (JObj [(''items'', JArr [JObj [], JObj [], JObj [], JObj [], JObj [], JObj []])])\<rparr>\<close>

definition unauthorized_response :: http_response where
  "unauthorized_response = \<lparr>status = 401, body_text = ''unauthorized'', body_json = None\<rparr>"

definition one_result_response :: http_response where
  \<open>one_result_response =
     \<lparr>status = 200,
      body_text =
        ''{"items":[{"title":"Paris","snippet":"Paris is the capital of France.","link":"https://example.org/paris"}]}'',
      body_json = Some
        (JObj [(''items'', JArr [JObj [(''title'', JStr ''Paris''),
           (''snippet'', JStr ''Paris is the capital of France.''),
           (''link'', JStr ''https://example.org/paris'')]])])\<rparr>\<close>

definition no_choices_response :: http_response where
  \<open>no_choices_response =
     \<lparr>status = 200, body_text = ''{"choices":[]}'',
      body_json = Some (JObj [(''choices'', JArr [])])\<rparr>\<close>

definition paris_item :: item where
  "paris_item =
     \<lparr>title = J (JStr ''Paris''), snippet = J (JStr ''Paris is the capital of France.''),
      link = J (JStr ''https://example.org/paris''), source = ''primary''\<rparr>"

text \<open>A primary adapter that finds one item for every query.\<close>

definition local_index :: "string \<Rightarrow> error + item list" where
  "local_index q = Inr [paris_item]"

section \<open>Properties\<close>

subsection \<open>The cache\<close>

lemma map_of_lru_set: "map_of (lru_set now c k v) k = Some (v, now)"
  by (cases "lru_delete c k") (simp_all add: lru_set_def Let_def max_entries_def)

lemma lru_get_live:
  "lru_has t c k \<Longrightarrow> \<exists>v start. map_of c k = Some (v, start) \<and> start + ttl \<ge> t \<and>
     lru_get t c k = (Some v, (k, v, start) # lru_delete c k)"
  by (auto simp: lru_has_def lru_get_def stale_def split: option.splits)

subsection \<open>The adapters' requests\<close>

lemma googleSearch_events:
  "snd (googleSearch env q) = [] \<or> snd (googleSearch env q) = [Fetch (google_request env q)]"
  by (simp add: googleSearch_def)

lemma openai_events:
  "set (snd (openaiChatAnswer env q ctx)) \<subseteq> range Fetch"
  by (auto simp: openaiChatAnswer_def split: sum.splits)

subsection \<open>The branches of the handler\<close>

lemma search_with_miss:
  "trim s \<noteq> [] \<Longrightarrow> \<not> lru_has t (cache st) (trim s)
    \<Longrightarrow> search_with P env t t' st (QString s)
        = fallback P env t' (st\<lparr>trace := trace st @ [CacheHas (trim s)]\<rparr>) (trim s)"
  by (simp add: search_with_def Let_def)

text \<open>The four ways the fallback chain ends.\<close>

lemma fallback_primary_error:
  "P q = Inl e \<Longrightarrow>
   fallback P env t' st q = (Err500 e, st\<lparr>trace := trace st @ [CallPrimary q]\<rparr>)"
  by (simp add: fallback_def)

lemma fallback_primary:
  "P q = Inr items \<Longrightarrow> items \<noteq> [] \<Longrightarrow>
   fallback P env t' st q =
     (Fresh (Primary items),
      \<lparr>cache = lru_set t' (cache st) q (Primary items),
       trace = trace st @ [CallPrimary q, CacheSet q (Primary items)]\<rparr>)"
  by (simp add: fallback_def)

lemma fallback_google:
  "P q = Inr [] \<Longrightarrow> fst (googleSearch env q) = Inr items \<Longrightarrow> items \<noteq> [] \<Longrightarrow>
   fallback P env t' st q =
     (Fresh (Google items),
      \<lparr>cache = lru_set t' (cache st) q (Google items),
       trace = trace st @ [CallPrimary q, CallGoogle q] @ snd (googleSearch env q)
         @ [CacheSet q (Google items)]\<rparr>)"
  by (simp add: fallback_def Let_def)

lemma fallback_openai:
  "P q = Inr [] \<Longrightarrow> (case fst (googleSearch env q) of Inl e \<Rightarrow> [] | Inr xs \<Rightarrow> xs) = [] \<Longrightarrow>
   fallback P env t' st q =
     (case fst (openaiChatAnswer env q []) of
        Inl e \<Rightarrow>
          (Err500 e,
           st\<lparr>trace := trace st @ [CallPrimary q, CallGoogle q]
             @ snd (googleSearch env q) @ [CallOpenAI q []] @ snd (openaiChatAnswer env q [])\<rparr>)
      | Inr a \<Rightarrow>
          (Fresh (OpenAI (text a)),
           \<lparr>cache = lru_set t' (cache st) q (OpenAI (text a)),
            trace = trace st @ [CallPrimary q, CallGoogle q]
              @ snd (googleSearch env q) @ [CallOpenAI q []] @ snd (openaiChatAnswer env q [])
              @ [CacheSet q (OpenAI (text a))]\<rparr>))"
  by (simp add: fallback_def Let_def split: sum.splits)


lemma fallback_cases:
  obtains (primary_error) e where "P q = Inl e"
    | (primary_found) items where "P q = Inr items" "items \<noteq> []"
    | (google_found) items where "P q = Inr []" "fst (googleSearch env q) = Inr items" "items \<noteq> []"
    | (generative) "P q = Inr []" "(case fst (googleSearch env q) of Inl e \<Rightarrow> [] | Inr xs \<Rightarrow> xs) = []"
proof (cases "P q")
  case (Inl e)
  then show ?thesis by (rule primary_error)
next
  case (Inr items)
  show ?thesis
  proof (cases "items = []")
    case False
    with Inr show ?thesis by (rule primary_found)
  next
    case True
    with Inr have p: "P q = Inr []" by simp
    show ?thesis
    proof (cases "fst (googleSearch env q)")
      case (Inl e)
      with p show ?thesis by (intro generative) simp_all
    next
      case r: (Inr xs)
      show ?thesis
      proof (cases "xs = []")
        case True
        with p r show ?thesis by (intro generative) simp_all
      next
        case False
        with p r show ?thesis by (rule google_found)
      qed
    qed
  qed
qed

lemma googleSearch_no_call:
  "CallOpenAI q ctx \<notin> set (snd (googleSearch env q'))"
  using googleSearch_events [of env q'] by auto

lemma openai_no_call:
  "CallOpenAI q ctx \<notin> set (snd (openaiChatAnswer env q' ctx'))"
  using openai_events [of env q' ctx'] by auto

lemma fallback_calls_openai:
  assumes "CallOpenAI q' ctx \<in> set (new_events st (snd (fallback P env t' st q)))"
  shows "q' = q \<and> ctx = [] \<and> P q = Inr []
    \<and> (case fst (googleSearch env q) of Inl e \<Rightarrow> [] | Inr xs \<Rightarrow> xs) = []"
proof (cases rule: fallback_cases [where P = P and q = q and env = env])
  case (primary_error e)
  with assms show ?thesis by (simp add: fallback_primary_error new_events_def)
next
  case (primary_found items)
  with assms show ?thesis by (simp add: fallback_primary new_events_def)
next
  case (google_found items)
  with assms show ?thesis
    by (simp add: fallback_google new_events_def googleSearch_no_call)
next
  case generative
  with assms show ?thesis
    by (cases "fst (openaiChatAnswer env q [])")
       (auto simp: fallback_openai new_events_def googleSearch_no_call openai_no_call)
qed


text \<open>The fallback chain only adds events.\<close>

lemma fallback_extends:
  "\<exists>evs. trace (snd (fallback P env t' st q)) = trace st @ evs"
proof (cases rule: fallback_cases [where P = P and q = q and env = env])
  case (primary_error e)
  then show ?thesis by (simp add: fallback_primary_error)
next
  case (primary_found items)
  then show ?thesis by (simp add: fallback_primary)
next
  case (google_found items)
  then show ?thesis by (simp add: fallback_google)
next
  case generative
  then show ?thesis
    by (cases "fst (openaiChatAnswer env q [])") (simp_all add: fallback_openai)
qed

lemma new_events_after_has:
  "new_events st (snd (fallback P env t' (st\<lparr>trace := trace st @ [CacheHas q]\<rparr>) q))
     = CacheHas q
       # new_events (st\<lparr>trace := trace st @ [CacheHas q]\<rparr>)
           (snd (fallback P env t' (st\<lparr>trace := trace st @ [CacheHas q]\<rparr>) q))"
proof -
  obtain evs where
    "trace (snd (fallback P env t' (st\<lparr>trace := trace st @ [CacheHas q]\<rparr>) q))
       = trace (st\<lparr>trace := trace st @ [CacheHas q]\<rparr>) @ evs"
    using fallback_extends by blast
  then show ?thesis by (simp add: new_events_def)
qed

lemma search_calls_openai:
  assumes "CallOpenAI q' ctx \<in> set (new_events st (snd (search_with P env t t' st qp)))"
  shows "search_with P env t t' st qp
       = fallback P env t' (st\<lparr>trace := trace st @ [CacheHas q']\<rparr>) q'
    \<and> ctx = [] \<and> P q' = Inr []
    \<and> (case fst (googleSearch env q') of Inl e \<Rightarrow> [] | Inr xs \<Rightarrow> xs) = []"
proof (cases qp)
  case QMissing
  with assms show ?thesis by (simp add: search_with_def new_events_def trim_def)
next
  case QOther
  with assms show ?thesis by (simp add: search_with_def new_events_def)
next
  case (QString s)
  show ?thesis
  proof (cases "trim s \<noteq> [] \<and> \<not> lru_has t (cache st) (trim s)")
    case True
    let ?st = "st\<lparr>trace := trace st @ [CacheHas (trim s)]\<rparr>"
    from True have eq: "search_with P env t t' st qp = fallback P env t' ?st (trim s)"
      using QString by (simp add: search_with_miss)
    with assms have "CallOpenAI q' ctx \<in> set (new_events ?st (snd (fallback P env t' ?st (trim s))))"
      by (simp add: new_events_after_has)
    from fallback_calls_openai [OF this] eq show ?thesis by simp
  next
    case False
    with assms QString show ?thesis
      by (auto simp: search_with_def new_events_def Let_def)
  qed
qed

subsection \<open>The items of the web search\<close>

lemma map_err_google_item:
  "map_err google_item xs = Inr items \<Longrightarrow>
     length items = length xs \<and> (\<forall>it \<in> set items. source it = ''google'')"
proof (induction xs arbitrary: items)
  case Nil
  then show ?case by simp
next
  case (Cons x xs)
  then show ?case
    by (auto simp: google_item_def and_then_def split: sum.splits)
qed

lemma google_items_listed:
  assumes "google_items data = Inr items"
  shows "length items = listed data \<and> (\<forall>it \<in> set items. source it = ''google'')"
proof (cases data)
  case (JObj kvs)
  show ?thesis
  proof (cases "map_of kvs ''items''")
    case None
    with assms JObj show ?thesis
      by (simp add: google_items_def get_prop_def and_then_def falsy_def listed_def)
  next
    case (Some v)
    with assms JObj map_err_google_item show ?thesis
      by (cases v)
         (auto simp: google_items_def get_prop_def and_then_def falsy_def listed_def
            split: if_splits)
  qed
qed (use assms in \<open>auto simp: google_items_def get_prop_def and_then_def falsy_def listed_def
       split: if_splits\<close>)

subsection \<open>No primary outcome is ever stored\<close>

lemma no_primary_delete: "no_primary c \<Longrightarrow> no_primary (lru_delete c k)"
  by (simp add: no_primary_def lru_delete_def list_all_iff)

lemma no_primary_set:
  assumes "no_primary c" and "\<not> is_primary v"
  shows "no_primary (lru_set now c k v)"
proof -
  have "no_primary ((k, v, now) # lru_delete c k)"
    using assms no_primary_delete [of c k] by (simp add: no_primary_def)
  then show ?thesis
    by (auto simp: lru_set_def Let_def no_primary_def list_all_iff dest: in_set_butlastD)
qed

lemma no_primary_lookup:
  "no_primary c \<Longrightarrow> map_of c k = Some (v, start) \<Longrightarrow> \<not> is_primary v"
  by (auto simp: no_primary_def list_all_iff dest!: map_of_SomeD)

lemma no_primary_get:
  assumes "no_primary c"
  shows "no_primary (snd (lru_get now c k))"
    and "fst (lru_get now c k) = Some v \<Longrightarrow> \<not> is_primary v"
  using assms no_primary_delete [of c k] no_primary_lookup [of c k]
  by (auto simp: lru_get_def no_primary_def split: option.splits if_splits)

text \<open>What a call of the registered handler can reply and store, branch by branch.\<close>

lemma search_reply_cases:
  assumes "no_primary (cache st)"
  shows "no_primary (cache (snd (search env t t' st qp)))
    \<and> fst (search env t t' st qp) \<noteq> Cached None
    \<and> (\<forall>v. fst (search env t t' st qp) = Fresh v \<or> fst (search env t t' st qp) = Cached (Some v)
          \<longrightarrow> \<not> is_primary v)
    \<and> (\<forall>k v. CacheSet k v \<in> set (new_events st (snd (search env t t' st qp)))
          \<longrightarrow> \<not> is_primary v)"
proof (cases qp)
  case QMissing
  with assms show ?thesis by (simp add: search_def search_with_def new_events_def trim_def)
next
  case QOther
  with assms show ?thesis by (simp add: search_def search_with_def new_events_def)
next
  case (QString s)
  let ?q = "trim s"
  consider (empty) "?q = []" | (hit) "?q \<noteq> []" "lru_has t (cache st) ?q"
    | (miss) "?q \<noteq> []" "\<not> lru_has t (cache st) ?q"
    by blast
  then show ?thesis
  proof cases
    case empty
    with assms QString show ?thesis
      by (simp add: search_def search_with_def new_events_def)
  next
    case hit
    from lru_get_live [OF hit(2)] obtain w start where
      m: "map_of (cache st) ?q = Some (w, start)"
      and g: "lru_get t (cache st) ?q = (Some w, (?q, w, start) # lru_delete (cache st) ?q)"
      by blast
    from assms m have w: "\<not> is_primary w" by (rule no_primary_lookup)
    from no_primary_get(1) [OF assms, of t ?q] g
    have "no_primary ((?q, w, start) # lru_delete (cache st) ?q)" by simp
    with hit QString g w show ?thesis
      by (simp add: search_def search_with_def Let_def new_events_def)
  next
    case miss
    let ?st = "st\<lparr>trace := trace st @ [CacheHas ?q]\<rparr>"
    from miss QString have eq: "search env t t' st qp = fallback primarySearch env t' ?st ?q"
      by (simp add: search_def search_with_miss)
    have p: "primarySearch ?q = Inr []" by (simp add: primarySearch_def)
    show ?thesis
    proof (cases "(case fst (googleSearch env ?q) of Inl e \<Rightarrow> [] | Inr xs \<Rightarrow> xs) = []")
      case True
      have fetches: "CacheSet k v \<notin> set (snd (googleSearch env ?q))"
        "CacheSet k v \<notin> set (snd (openaiChatAnswer env ?q []))" for k v
        using googleSearch_events [of env ?q] openai_events [of env ?q "[]"] by auto
      from assms show ?thesis
        by (cases "fst (openaiChatAnswer env ?q [])")
           (simp_all add: eq fallback_openai [of primarySearch, OF p True] new_events_def
              no_primary_set fetches)
    next
      case False
      then obtain items where i: "fst (googleSearch env ?q) = Inr items" "items \<noteq> []"
        by (cases "fst (googleSearch env ?q)") auto
      have fetches: "CacheSet k v \<notin> set (snd (googleSearch env ?q))" for k v
        using googleSearch_events [of env ?q] by auto
      from assms show ?thesis
        by (simp add: eq fallback_google [of primarySearch, OF p i] new_events_def
            no_primary_set fetches)
    qed
  qed
qed

lemma reachable_no_primary: "reachable st \<Longrightarrow> no_primary (cache st)"
proof (induction rule: reachable.induct)
  case start
  show ?case by (simp add: init_def no_primary_def)
next
  case (step st env t t' qp)
  then show ?case using search_reply_cases [of st env t t' qp] by simp
qed

section \<open>The claims\<close>

text \<open>The definitions that evaluate the examples.\<close>

lemmas ex_defs = answering_def paris_response_def chat_reply_def empty_object_response_def
  six_results_response_def unauthorized_response_def paris_item_def local_index_def
  one_result_response_def no_choices_response_def
lemmas js_defs = trim_def is_ws_def cleanText_def falsy_def js_string_def opt_prop_def
  opt_index0_def get_prop_def chat_content_def and_then_def ok_def
lemmas run_defs = search_def search_with_def fallback_def primarySearch_def googleSearch_def
  openaiChatAnswer_def ai_def lru_has_def lru_get_def lru_set_def lru_delete_def stale_def
  ttl_def max_entries_def init_def new_events_def Let_def

text \<open>
  C1. When the primary index finds nothing and the web search fails, with whatever
  error, the failure is absorbed: the reply of the resolution is decided by the chat
  completion alone. If that succeeds, the reply is its answer, with source \<open>openai\<close>;
  the only error that can reach the caller is the chat completion's own.
\<close>

theorem web_failure_absorbed:
  assumes "trim s \<noteq> []"
    and "\<not> lru_has t (cache st) (trim s)"
    and "P (trim s) = Inr []"
    and "fst (googleSearch env (trim s)) = Inl e"
  shows "fst (search_with P env t t' st (QString s))
     = (case fst (openaiChatAnswer env (trim s) []) of
          Inl e' \<Rightarrow> Err500 e'
        | Inr a \<Rightarrow> Fresh (OpenAI (text a)))"
proof -
  from assms(4) have g: "(case fst (googleSearch env (trim s)) of Inl e \<Rightarrow> [] | Inr xs \<Rightarrow> xs) = []"
    by simp
  show ?thesis
    using fallback_openai [of P "trim s" env t' "st\<lparr>trace := trace st @ [CacheHas (trim s)]\<rparr>"]
      assms(3) g
    by (simp add: search_with_miss [OF assms(1,2)] split: sum.splits)
qed

theorem web_failure_absorbed_witness:
  "trim '' rome '' \<noteq> []
   \<and> \<not> lru_has 0 (cache init) (trim '' rome '')
   \<and> primarySearch (trim '' rome '') = Inr []
   \<and> fst (googleSearch (answering ''sk-1'' [] [] paris_response) (trim '' rome ''))
       = Inl GoogleNotConfigured
   \<and> fst (search_with primarySearch (answering ''sk-1'' [] [] paris_response) 0 10 init
         (QString '' rome ''))
       = Fresh (OpenAI ''Paris.'')"
proof -
  have h1: "trim '' rome '' \<noteq> []" by (simp add: js_defs)
  have h2: "\<not> lru_has 0 (cache init) (trim '' rome '')" by (simp add: run_defs)
  have h3: "primarySearch (trim '' rome '') = Inr []" by (simp add: primarySearch_def)
  have h4: "fst (googleSearch (answering ''sk-1'' [] [] paris_response) (trim '' rome ''))
       = Inl GoogleNotConfigured"
    by (simp add: googleSearch_def answering_def)
  have h5: "fst (openaiChatAnswer (answering ''sk-1'' [] [] paris_response) (trim '' rome '') [])
       = Inr \<lparr>text = ''Paris.'', raw = chat_reply ''Paris.''\<rparr>"
    by (simp add: openaiChatAnswer_def ex_defs js_defs)
  show ?thesis
    using h1 h2 h3 h4 h5
      web_failure_absorbed [where s = "'' rome ''" and t = 0 and st = init
        and P = primarySearch and env = "answering ''sk-1'' [] [] paris_response"
        and e = GoogleNotConfigured and t' = 10]
    by simp
qed


text \<open>
  C2. When the primary index finds nothing and the web search fails or finds nothing,
  the resolution calls the chat completion, on the trimmed query, with the items of the
  web search as context (none, in both cases), and the reply is what that call gives.
\<close>

theorem generative_never_skipped:
  assumes "trim s \<noteq> []"
    and "\<not> lru_has t (cache st) (trim s)"
    and "P (trim s) = Inr []"
    and "fst (googleSearch env (trim s)) = Inl e \<or> fst (googleSearch env (trim s)) = Inr []"
  shows "CallOpenAI (trim s) (case fst (googleSearch env (trim s)) of Inl e' \<Rightarrow> [] | Inr xs \<Rightarrow> xs)
       \<in> set (new_events st (snd (search_with P env t t' st (QString s))))
    \<and> fst (search_with P env t t' st (QString s))
       = (case fst (openaiChatAnswer env (trim s)
                 (case fst (googleSearch env (trim s)) of Inl e' \<Rightarrow> [] | Inr xs \<Rightarrow> xs)) of
            Inl e' \<Rightarrow> Err500 e'
          | Inr a \<Rightarrow> Fresh (OpenAI (text a)))"
proof -
  from assms(4) have g: "(case fst (googleSearch env (trim s)) of Inl e \<Rightarrow> [] | Inr xs \<Rightarrow> xs) = []"
    by auto
  show ?thesis
    using fallback_openai [of P "trim s" env t' "st\<lparr>trace := trace st @ [CacheHas (trim s)]\<rparr>"]
      assms(3) g
    by (cases "fst (openaiChatAnswer env (trim s) [])")
       (simp_all add: search_with_miss [OF assms(1,2)] new_events_def)
qed

theorem generative_never_skipped_witness:
  "trim ''xyz'' \<noteq> []
   \<and> \<not> lru_has 0 (cache init) (trim ''xyz'')
   \<and> primarySearch (trim ''xyz'') = Inr []
   \<and> fst (googleSearch (answering ''sk-1'' ''g-1'' ''cx-1'' empty_object_response) (trim ''xyz''))
       = Inr []
   \<and> CallOpenAI ''xyz'' []
       \<in> set (new_events init
           (snd (search_with primarySearch (answering ''sk-1'' ''g-1'' ''cx-1'' empty_object_response)
              0 10 init (QString ''xyz''))))"
proof -
  have h1: "trim ''xyz'' = ''xyz''" by (simp add: js_defs)
  have h2: "\<not> lru_has 0 (cache init) ''xyz''" by (simp add: run_defs)
  have h3: "primarySearch ''xyz'' = Inr []" by (simp add: primarySearch_def)
  have h4: "fst (googleSearch (answering ''sk-1'' ''g-1'' ''cx-1'' empty_object_response) ''xyz'')
       = Inr []"
    by (simp add: googleSearch_def google_items_def ex_defs js_defs)
  show ?thesis
    using h1 h2 h3 h4
      generative_never_skipped [where s = "''xyz''" and t = 0 and st = init
        and P = primarySearch and env = "answering ''sk-1'' ''g-1'' ''cx-1'' empty_object_response"
        and t' = 10]
    by simp
qed

text \<open>
  C3. When the primary adapter finds items, the resolution replies with them, with
  source \<open>primary\<close>, stores that outcome under the trimmed query, and does nothing
  else: the primary adapter is the only adapter called, and no request is sent.
\<close>

theorem primary_short_circuit:
  assumes "trim s \<noteq> []"
    and "\<not> lru_has t (cache st) (trim s)"
    and "P (trim s) = Inr items"
    and "items \<noteq> []"
  shows "fst (search_with P env t t' st (QString s)) = Fresh (Primary items)
    \<and> map_of (cache (snd (search_with P env t t' st (QString s)))) (trim s)
        = Some (Primary items, t')
    \<and> new_events st (snd (search_with P env t t' st (QString s)))
        = [CacheHas (trim s), CallPrimary (trim s), CacheSet (trim s) (Primary items)]"
  using fallback_primary [of P "trim s" items env t' "st\<lparr>trace := trace st @ [CacheHas (trim s)]\<rparr>"]
    assms(3,4)
  by (simp add: search_with_miss [OF assms(1,2)] map_of_lru_set new_events_def)

theorem primary_short_circuit_witness:
  "trim ''paris '' \<noteq> []
   \<and> \<not> lru_has 0 (cache init) (trim ''paris '')
   \<and> local_index (trim ''paris '') = Inr [paris_item]
   \<and> [paris_item] \<noteq> []
   \<and> fst (search_with local_index (answering [] [] [] unauthorized_response) 0 10 init
         (QString ''paris ''))
       = Fresh (Primary [paris_item])
   \<and> new_events init
        (snd (search_with local_index (answering [] [] [] unauthorized_response) 0 10 init
           (QString ''paris '')))
       = [CacheHas ''paris'', CallPrimary ''paris'', CacheSet ''paris'' (Primary [paris_item])]"
proof -
  have h1: "trim ''paris '' = ''paris''" by (simp add: js_defs)
  have h2: "\<not> lru_has 0 (cache init) ''paris''" by (simp add: run_defs)
  have h3: "local_index ''paris'' = Inr [paris_item]" by (simp add: local_index_def)
  show ?thesis
    using h1 h2 h3
      primary_short_circuit [where s = "''paris ''" and t = 0 and st = init
        and P = local_index and items = "[paris_item]"
        and env = "answering [] [] [] unauthorized_response" and t' = 10]
    by simp
qed

text \<open>
  C4. When a call for a query has replied with an outcome, fresh or from the cache, the
  cache holds that outcome under the trimmed query, stored at the time of the call's
  store when the outcome was fresh. A later call for the same query that finds this
  entry still in the cache (nothing evicted or replaced it) and not older than the time
  to live replies with the same outcome, marked \<open>cached: true\<close>, and calls no adapter
  and sends no request.
\<close>

theorem cache_hit_repeats:
  assumes "search_with P env t t' st (QString s) = (r, st1)"
    and "r = Fresh v \<or> r = Cached (Some v)"
  shows "\<exists>start. map_of (cache st1) (trim s) = Some (v, start)
     \<and> (r = Fresh v \<longrightarrow> start = t')
     \<and> (\<forall>P2 env2 t2 t2' st2.
          map_of (cache st2) (trim s) = Some (v, start) \<and> t2 \<le> start + ttl
          \<longrightarrow> fst (search_with P2 env2 t2 t2' st2 (QString s)) = Cached (Some v)
            \<and> filter is_adapter_event
                 (new_events st2 (snd (search_with P2 env2 t2 t2' st2 (QString s)))) = [])"
proof -
  let ?q = "trim s"
  have ne: "?q \<noteq> []"
    using assms by (auto simp: search_with_def Let_def split: if_splits)
  have second: "fst (search_with P2 env2 t2 t2' st2 (QString s)) = Cached (Some v)
      \<and> filter is_adapter_event
           (new_events st2 (snd (search_with P2 env2 t2 t2' st2 (QString s)))) = []"
    if "map_of (cache st2) ?q = Some (v, start)" and "t2 \<le> start + ttl"
    for P2 env2 t2 t2' st2 start
    using that ne
    by (simp add: search_with_def Let_def lru_has_def lru_get_def stale_def new_events_def)
  have first: "\<exists>start. map_of (cache st1) ?q = Some (v, start) \<and> (r = Fresh v \<longrightarrow> start = t')"
  proof (cases "lru_has t (cache st) ?q")
    case True
    from lru_get_live [OF True] obtain w start where
      g: "lru_get t (cache st) ?q = (Some w, (?q, w, start) # lru_delete (cache st) ?q)"
      by blast
    from True ne have "search_with P env t t' st (QString s) =
        (Cached (Some w),
         \<lparr>cache = (?q, w, start) # lru_delete (cache st) ?q,
          trace = trace st @ [CacheHas ?q, CacheGet ?q]\<rparr>)"
      by (simp add: search_with_def Let_def g)
    with assms show ?thesis by auto
  next
    case False
    with ne have eq: "fallback P env t' (st\<lparr>trace := trace st @ [CacheHas ?q]\<rparr>) ?q = (r, st1)"
      using assms(1) by (simp add: search_with_miss)
    show ?thesis
    proof (cases rule: fallback_cases [where P = P and q = ?q and env = env])
      case (primary_error e)
      with eq assms(2) show ?thesis by (auto simp: fallback_primary_error)
    next
      case (primary_found items)
      with eq assms(2) show ?thesis by (auto simp: fallback_primary map_of_lru_set)
    next
      case (google_found items)
      with eq assms(2) show ?thesis by (auto simp: fallback_google map_of_lru_set)
    next
      case generative
      with eq assms(2) show ?thesis
        by (cases "fst (openaiChatAnswer env ?q [])")
           (auto simp: fallback_openai map_of_lru_set)
    qed
  qed
  from first second show ?thesis by blast
qed


theorem cache_hit_repeats_witness:
  "fst (search_with primarySearch (answering ''sk-1'' [] [] paris_response) 0 10 init
       (QString '' rome ''))
     = Fresh (OpenAI ''Paris.'')
   \<and> fst (search_with primarySearch (answering [] [] [] unauthorized_response) 20 30
       (snd (search_with primarySearch (answering ''sk-1'' [] [] paris_response) 0 10 init
          (QString '' rome '')))
       (QString '' rome ''))
     = Cached (Some (OpenAI ''Paris.''))"
proof -
  let ?first = "search_with primarySearch (answering ''sk-1'' [] [] paris_response) 0 10 init
       (QString '' rome '')"
  have q: "trim '' rome '' = ''rome''" by (simp add: js_defs)
  have ai: "fst (openaiChatAnswer (answering ''sk-1'' [] [] paris_response) ''rome'' [])
       = Inr \<lparr>text = ''Paris.'', raw = chat_reply ''Paris.''\<rparr>"
    by (simp add: openaiChatAnswer_def ex_defs js_defs)
  have g: "(case fst (googleSearch (answering ''sk-1'' [] [] paris_response) ''rome'') of
       Inl e \<Rightarrow> [] | Inr xs \<Rightarrow> xs) = []"
    by (simp add: googleSearch_def answering_def)
  have miss: "\<not> lru_has 0 (cache init) ''rome''" by (simp add: run_defs)
  have r: "fst ?first = Fresh (OpenAI ''Paris.'')"
    using fallback_openai [of primarySearch "''rome''" "answering ''sk-1'' [] [] paris_response" 10
        "init\<lparr>trace := trace init @ [CacheHas ''rome'']\<rparr>"]
      g ai miss search_with_miss [of "'' rome ''" 0 init primarySearch _ 10]
    by (simp add: q primarySearch_def)
  have "\<exists>start. map_of (cache (snd ?first)) (trim '' rome '') = Some (OpenAI ''Paris.'', start)
     \<and> (fst ?first = Fresh (OpenAI ''Paris.'') \<longrightarrow> start = 10)
     \<and> (\<forall>P2 env2 t2 t2' st2.
          map_of (cache st2) (trim '' rome '') = Some (OpenAI ''Paris.'', start) \<and> t2 \<le> start + ttl
          \<longrightarrow> fst (search_with P2 env2 t2 t2' st2 (QString '' rome ''))
                = Cached (Some (OpenAI ''Paris.''))
            \<and> filter is_adapter_event
                 (new_events st2 (snd (search_with P2 env2 t2 t2' st2 (QString '' rome '')))) = [])"
    by (rule cache_hit_repeats [where P = primarySearch and t = 0 and t' = 10 and st = init
          and env = "answering ''sk-1'' [] [] paris_response"])
       (simp_all add: r prod_eq_iff)
  then obtain start where
    m: "map_of (cache (snd ?first)) (trim '' rome '') = Some (OpenAI ''Paris.'', start)"
    and s: "fst ?first = Fresh (OpenAI ''Paris.'') \<longrightarrow> start = 10"
    and again: "\<forall>P2 env2 t2 t2' st2.
          map_of (cache st2) (trim '' rome '') = Some (OpenAI ''Paris.'', start) \<and> t2 \<le> start + ttl
          \<longrightarrow> fst (search_with P2 env2 t2 t2' st2 (QString '' rome ''))
                = Cached (Some (OpenAI ''Paris.''))
            \<and> filter is_adapter_event
                 (new_events st2 (snd (search_with P2 env2 t2 t2' st2 (QString '' rome '')))) = []"
    by blast
  from s r have "(20::nat) \<le> start + ttl" by (simp add: ttl_def)
  with again m have "fst (search_with primarySearch (answering [] [] [] unauthorized_response) 20 30
       (snd ?first) (QString '' rome '')) = Cached (Some (OpenAI ''Paris.''))"
    by blast
  with r show ?thesis by simp
qed

text \<open>
  C5. When a resolution reaches the chat completion and the chat completion fails, the
  reply is status 500 with that error, the cache is what it was before the call, and
  the call stores nothing.
\<close>

theorem generative_failure_terminal:
  assumes "CallOpenAI q ctx \<in> set (new_events st (snd (search_with P env t t' st qp)))"
    and "fst (openaiChatAnswer env q ctx) = Inl e"
  shows "fst (search_with P env t t' st qp) = Err500 e
    \<and> cache (snd (search_with P env t t' st qp)) = cache st
    \<and> (\<forall>k v. CacheSet k v \<notin> set (new_events st (snd (search_with P env t t' st qp))))"
proof -
  let ?st = "st\<lparr>trace := trace st @ [CacheHas q]\<rparr>"
  from search_calls_openai [OF assms(1)]
  have eq: "search_with P env t t' st qp = fallback P env t' ?st q"
    and c: "ctx = []" and p: "P q = Inr []"
    and g: "(case fst (googleSearch env q) of Inl e \<Rightarrow> [] | Inr xs \<Rightarrow> xs) = []"
    by simp_all
  have fb: "fallback P env t' ?st q =
      (Err500 e,
       st\<lparr>trace := trace st @ [CacheHas q, CallPrimary q, CallGoogle q]
         @ snd (googleSearch env q) @ [CallOpenAI q []] @ snd (openaiChatAnswer env q [])\<rparr>)"
    using fallback_openai [of P q env t' ?st] p g assms(2) c by simp
  have fetches: "CacheSet k v \<notin> set (snd (googleSearch env q))"
    "CacheSet k v \<notin> set (snd (openaiChatAnswer env q []))" for k v
    using googleSearch_events [of env q] openai_events [of env q "[]"] by auto
  show ?thesis
    by (simp add: eq fb new_events_def fetches)
qed

theorem generative_failure_terminal_witness:
  "CallOpenAI ''rome'' []
     \<in> set (new_events init
         (snd (search_with primarySearch (answering [] [] [] unauthorized_response) 0 10 init
            (QString ''rome''))))
   \<and> fst (openaiChatAnswer (answering [] [] [] unauthorized_response) ''rome'' [])
       = Inl OpenAIKeyNotSet
   \<and> fst (search_with primarySearch (answering [] [] [] unauthorized_response) 0 10 init
         (QString ''rome''))
       = Err500 OpenAIKeyNotSet
   \<and> cache (snd (search_with primarySearch (answering [] [] [] unauthorized_response) 0 10 init
         (QString ''rome'')))
       = cache init"
proof -
  have h1: "CallOpenAI ''rome'' []
     \<in> set (new_events init
         (snd (search_with primarySearch (answering [] [] [] unauthorized_response) 0 10 init
            (QString ''rome''))))"
    by (simp add: run_defs answering_def js_defs)
  have h2: "fst (openaiChatAnswer (answering [] [] [] unauthorized_response) ''rome'' [])
       = Inl OpenAIKeyNotSet"
    by (simp add: openaiChatAnswer_def answering_def)
  from generative_failure_terminal [OF h1 h2] h1 h2 show ?thesis by simp
qed

text \<open>
  C6, as the code has it. A successful web search returns one item for each element of
  the \<open>items\<close> array of the response, no fewer and no more: the adapter asks the
  service for five results (\<open>num=5\<close>) and does not cut the answer. Every item has the
  source \<open>google\<close>.
\<close>

theorem web_items_as_listed:
  assumes "fst (googleSearch env q) = Inr items"
  shows "(\<exists>res data. fetch env (google_request env q) = Some res \<and> ok res
            \<and> body_json res = Some data \<and> length items = listed data)
    \<and> map_of (search_params (google_request env q)) ''num'' = Some ''5''
    \<and> (\<forall>it \<in> set items. source it = ''google'')"
proof -
  from assms obtain res data where
    "fetch env (google_request env q) = Some res" "ok res" "body_json res = Some data"
    "google_items data = Inr items"
    by (auto simp: googleSearch_def split: if_splits option.splits)
  with google_items_listed [of data items] show ?thesis
    by (auto simp: google_request_def)
qed


theorem web_items_as_listed_witness:
  "fst (googleSearch (answering [] ''g-1'' ''cx-1'' one_result_response) ''paris'')
     = Inr [paris_item\<lparr>source := ''google''\<rparr>]
   \<and> (\<exists>res data. fetch (answering [] ''g-1'' ''cx-1'' one_result_response)
           (google_request (answering [] ''g-1'' ''cx-1'' one_result_response) ''paris'') = Some res
         \<and> ok res \<and> body_json res = Some data \<and> length [paris_item\<lparr>source := ''google''\<rparr>] = listed data)
   \<and> source (paris_item\<lparr>source := ''google''\<rparr>) = ''google''"
proof -
  have h: "fst (googleSearch (answering [] ''g-1'' ''cx-1'' one_result_response) ''paris'')
     = Inr [paris_item\<lparr>source := ''google''\<rparr>]"
    by (simp add: googleSearch_def google_items_def google_item_def ex_defs js_defs)
  from web_items_as_listed [OF h] h show ?thesis by simp
qed

text \<open>
  C6, as stated, fails: when the service lists six results, the adapter returns six
  items.
\<close>

theorem web_more_than_five:
  "map_sum id length
     (fst (googleSearch (answering [] ''g-1'' ''cx-1'' six_results_response) ''paris''))
   = Inr 6"
  by (simp add: googleSearch_def google_items_def google_item_def ex_defs js_defs)

text \<open>
  C7, as the code has it. A chat completion succeeds exactly when the key is set, every
  context item converts to a message, the upstream answers the request with a success
  status and a JSON body, and \<open>choices[0].message.content\<close> of that body, taken as the
  empty string when it is absent or \<open>null\<close>, converts to a string. The success carries
  that body as \<open>raw\<close> and the trimmed content as \<open>text\<close>. So when the content of the
  response is absent, \<open>null\<close> or empty, the call succeeds with the empty text.
\<close>

theorem answer_is_trimmed_content:
  "(fst (openaiChatAnswer env q ctx) = Inr a
      \<longleftrightarrow> OPENAI_API_KEY env \<noteq> []
        \<and> (\<exists>msgs res. map_err context_message ctx = Inr msgs
              \<and> fetch env (chat_request env q msgs) = Some res \<and> ok res
              \<and> body_json res = Some (raw a)
              \<and> cleanText (chat_content (raw a)) = Inr (text a)))
   \<and> (OPENAI_API_KEY env \<noteq> [] \<and> map_err context_message ctx = Inr msgs
        \<and> fetch env (chat_request env q msgs) = Some res \<and> ok res
        \<and> body_json res = Some data \<and> chat_content data = J (JStr [])
      \<longrightarrow> fst (openaiChatAnswer env q ctx) = Inr \<lparr>text = [], raw = data\<rparr>)"
proof (intro conjI impI iffI)
  assume "fst (openaiChatAnswer env q ctx) = Inr a"
  then show "OPENAI_API_KEY env \<noteq> []"
    by (auto simp: openaiChatAnswer_def split: if_splits)
next
  assume s: "fst (openaiChatAnswer env q ctx) = Inr a"
  then have key: "OPENAI_API_KEY env \<noteq> []"
    by (auto simp: openaiChatAnswer_def split: if_splits)
  with s obtain msgs where m: "map_err context_message ctx = Inr msgs"
    by (cases "map_err context_message ctx") (auto simp: openaiChatAnswer_def)
  with s key obtain res where r: "fetch env (chat_request env q msgs) = Some res"
    by (cases "fetch env (chat_request env q msgs)") (auto simp: openaiChatAnswer_def)
  with s key m have o: "ok res"
    by (auto simp: openaiChatAnswer_def split: if_splits)
  with s key m r obtain data where d: "body_json res = Some data"
    by (cases "body_json res") (auto simp: openaiChatAnswer_def)
  with s key m r o have "raw a = data \<and> cleanText (chat_content data) = Inr (text a)"
    by (cases "cleanText (chat_content data)") (auto simp: openaiChatAnswer_def and_then_def)
  with m r o d show "\<exists>msgs res. map_err context_message ctx = Inr msgs
              \<and> fetch env (chat_request env q msgs) = Some res \<and> ok res
              \<and> body_json res = Some (raw a)
              \<and> cleanText (chat_content (raw a)) = Inr (text a)"
    by auto
next
  assume "OPENAI_API_KEY env \<noteq> []
        \<and> (\<exists>msgs res. map_err context_message ctx = Inr msgs
              \<and> fetch env (chat_request env q msgs) = Some res \<and> ok res
              \<and> body_json res = Some (raw a)
              \<and> cleanText (chat_content (raw a)) = Inr (text a))"
  then show "fst (openaiChatAnswer env q ctx) = Inr a"
    by (auto simp: openaiChatAnswer_def and_then_def)
next
  assume "OPENAI_API_KEY env \<noteq> [] \<and> map_err context_message ctx = Inr msgs
        \<and> fetch env (chat_request env q msgs) = Some res \<and> ok res
        \<and> body_json res = Some data \<and> chat_content data = J (JStr [])"
  then show "fst (openaiChatAnswer env q ctx) = Inr \<lparr>text = [], raw = data\<rparr>"
    by (simp add: openaiChatAnswer_def and_then_def cleanText_def falsy_def js_string_def trim_def)
qed

theorem answer_is_trimmed_content_witness:
  "fst (openaiChatAnswer (answering ''sk-1'' [] [] paris_response) ''rome'' [])
     = Inr \<lparr>text = ''Paris.'', raw = chat_reply ''Paris.''\<rparr>
   \<and> (\<exists>msgs res. map_err context_message [] = Inr msgs
         \<and> fetch (answering ''sk-1'' [] [] paris_response)
             (chat_request (answering ''sk-1'' [] [] paris_response) ''rome'' msgs) = Some res
         \<and> ok res
         \<and> body_json res = Some (chat_reply ''Paris.'')
         \<and> cleanText (chat_content (chat_reply ''Paris.'')) = Inr ''Paris.'')
   \<and> chat_content (JObj [(''choices'', JArr [])]) = J (JStr [])
   \<and> fst (openaiChatAnswer (answering ''sk-1'' [] [] no_choices_response) ''rome'' [])
     = Inr \<lparr>text = [], raw = JObj [(''choices'', JArr [])]\<rparr>"
proof -
  have h1: "fst (openaiChatAnswer (answering ''sk-1'' [] [] paris_response) ''rome'' [])
     = Inr \<lparr>text = ''Paris.'', raw = chat_reply ''Paris.''\<rparr>"
    by (simp add: openaiChatAnswer_def ex_defs js_defs)
  have h2: "chat_content (JObj [(''choices'', JArr [])]) = J (JStr [])"
    by (simp add: js_defs)
  have h3: "OPENAI_API_KEY (answering ''sk-1'' [] [] no_choices_response) \<noteq> []
      \<and> map_err context_message [] = Inr []
      \<and> fetch (answering ''sk-1'' [] [] no_choices_response)
          (chat_request (answering ''sk-1'' [] [] no_choices_response) ''rome'' [])
          = Some no_choices_response
      \<and> ok no_choices_response
      \<and> body_json no_choices_response = Some (JObj [(''choices'', JArr [])])"
    by (simp add: ex_defs ok_def)
  from answer_is_trimmed_content [where env = "answering ''sk-1'' [] [] paris_response"
      and q = "''rome''" and ctx = "[]" and a = "\<lparr>text = ''Paris.'', raw = chat_reply ''Paris.''\<rparr>"]
  have c1: "\<exists>msgs res. map_err context_message [] = Inr msgs
         \<and> fetch (answering ''sk-1'' [] [] paris_response)
             (chat_request (answering ''sk-1'' [] [] paris_response) ''rome'' msgs) = Some res
         \<and> ok res
         \<and> body_json res = Some (chat_reply ''Paris.'')
         \<and> cleanText (chat_content (chat_reply ''Paris.'')) = Inr ''Paris.''"
    using h1 by simp
  from answer_is_trimmed_content [where env = "answering ''sk-1'' [] [] no_choices_response"
      and q = "''rome''" and ctx = "[]" and msgs = "[]" and res = no_choices_response
      and data = "JObj [(''choices'', JArr [])]"]
  have c2: "fst (openaiChatAnswer (answering ''sk-1'' [] [] no_choices_response) ''rome'' [])
     = Inr \<lparr>text = [], raw = JObj [(''choices'', JArr [])]\<rparr>"
    using h2 h3 by simp
  from h1 c1 h2 c2 show ?thesis by simp
qed

text \<open>
  C7, as stated, fails: on the response \<open>{}\<close> the adapter succeeds, with an empty
  answer.
\<close>

theorem empty_answer_succeeds:
  "fst (openaiChatAnswer (answering ''sk-1'' ''g-1'' ''cx-1'' empty_object_response) ''hello'' [])
   = Inr \<lparr>text = [], raw = JObj []\<rparr>"
  by (simp add: openaiChatAnswer_def ex_defs js_defs)

text \<open>
  \<open>POST /ai\<close> does not call the adapter: it sends a request of its own (another
  system prompt, \<open>max_tokens\<close> 1000, no context) and reads the response as the adapter
  does. Where the key is set and the upstream answers that request as it answers the
  adapter's for the same prompt, the handler replies with the adapter's answer, and
  fails exactly when the adapter fails, with the adapter's error.
\<close>

lemma ai_as_adapter_when_configured:
  assumes "OPENAI_API_KEY env \<noteq> []"
    and "opt_prop reqbody ''prompt'' = J (JStr p)"
    and "trim p \<noteq> []"
    and "fetch env (ai_request env (trim p)) = fetch env (chat_request env (trim p) [])"
  shows "fst (ai env reqbody)
     = (case fst (openaiChatAnswer env (trim p) []) of
          Inl e \<Rightarrow> AiErr500 e
        | Inr a \<Rightarrow> Reply (text a))"
proof -
  from assms(3) have "p \<noteq> []" by (auto simp: trim_def)
  then have prompt: "cleanText (opt_prop reqbody ''prompt'') = Inr (trim p)"
    using assms(2) by (simp add: cleanText_def falsy_def js_string_def)
  show ?thesis
    using assms(1,3,4)
    by (simp add: ai_def prompt openaiChatAnswer_def and_then_def
        split: option.splits sum.splits)
qed

lemma ai_as_adapter_when_configured_example:
  "OPENAI_API_KEY (answering ''sk-1'' [] [] paris_response) \<noteq> []
   \<and> opt_prop (J (JObj [(''prompt'', JStr '' rome? '')])) ''prompt'' = J (JStr '' rome? '')
   \<and> trim '' rome? '' \<noteq> []
   \<and> fetch (answering ''sk-1'' [] [] paris_response)
        (ai_request (answering ''sk-1'' [] [] paris_response) (trim '' rome? ''))
      = fetch (answering ''sk-1'' [] [] paris_response)
        (chat_request (answering ''sk-1'' [] [] paris_response) (trim '' rome? '') [])
   \<and> fst (ai (answering ''sk-1'' [] [] paris_response) (J (JObj [(''prompt'', JStr '' rome? '')])))
      = Reply ''Paris.''"
proof -
  have h1: "OPENAI_API_KEY (answering ''sk-1'' [] [] paris_response) \<noteq> []"
    by (simp add: answering_def)
  have h2: "opt_prop (J (JObj [(''prompt'', JStr '' rome? '')])) ''prompt'' = J (JStr '' rome? '')"
    by (simp add: js_defs)
  have h3: "trim '' rome? '' \<noteq> []" by (simp add: js_defs)
  have h4: "fetch (answering ''sk-1'' [] [] paris_response)
        (ai_request (answering ''sk-1'' [] [] paris_response) (trim '' rome? ''))
      = fetch (answering ''sk-1'' [] [] paris_response)
        (chat_request (answering ''sk-1'' [] [] paris_response) (trim '' rome? '') [])"
    by (simp add: answering_def)
  have h5: "fst (openaiChatAnswer (answering ''sk-1'' [] [] paris_response) (trim '' rome? '') [])
     = Inr \<lparr>text = ''Paris.'', raw = chat_reply ''Paris.''\<rparr>"
    by (simp add: openaiChatAnswer_def ex_defs js_defs)
  from ai_as_adapter_when_configured [OF h1 h2 h3 h4] h1 h2 h3 h4 h5 show ?thesis by simp
qed

text \<open>
  C8. For a prompt that is not empty, \<open>POST /ai\<close> is to behave as the chat completion
  adapter called with no context, and so to fail with \<open>OPENAI_API_KEY not set.\<close> when
  the key is missing. The handler lacks the guard that \<open>openaiChatAnswer\<close> and
  \<open>googleSearch\<close> have: without a key the adapter fails at once and sends nothing,
  while the handler sends its request, with the header \<open>Bearer\<close> and no key, and
  fails with the error of the upstream.
\<close>

theorem ai_skips_key_check:
  "fst (ai (answering [] [] [] unauthorized_response) (J (JObj [(''prompt'', JStr ''hello'')])))
     = AiErr500 (OpenAIError 401 ''unauthorized'')
   \<and> snd (ai (answering [] [] [] unauthorized_response) (J (JObj [(''prompt'', JStr ''hello'')])))
     = [Fetch (ai_request (answering [] [] [] unauthorized_response) ''hello'')]
   \<and> openaiChatAnswer (answering [] [] [] unauthorized_response) ''hello'' []
     = (Inl OpenAIKeyNotSet, [])"
  by (simp add: ai_def openaiChatAnswer_def ai_request_def ex_defs js_defs)

text \<open>
  C9. A request of \<open>GET /search\<close> whose \<open>q\<close> is missing or trims to the empty string is
  answered with status 400 and the state is unchanged: the cache is neither read nor
  written and no adapter is called. A request of \<open>POST /ai\<close> whose \<open>prompt\<close> is missing
  or trims to the empty string is answered with status 400 and sends no request.
\<close>

theorem empty_input_rejected:
  "(qp = QMissing \<or> (\<exists>s. qp = QString s \<and> trim s = [])
      \<longrightarrow> search_with P env t t' st qp = (Bad400, st))
   \<and> (opt_prop reqbody ''prompt'' = Undefined
        \<or> (\<exists>s. opt_prop reqbody ''prompt'' = J (JStr s) \<and> trim s = [])
      \<longrightarrow> ai env reqbody = (AiBad400, []))"
proof (intro conjI impI)
  assume "qp = QMissing \<or> (\<exists>s. qp = QString s \<and> trim s = [])"
  then show "search_with P env t t' st qp = (Bad400, st)"
    by (auto simp: search_with_def trim_def)
next
  assume "opt_prop reqbody ''prompt'' = Undefined
        \<or> (\<exists>s. opt_prop reqbody ''prompt'' = J (JStr s) \<and> trim s = [])"
  then have "cleanText (opt_prop reqbody ''prompt'') = Inr []"
    by (auto simp: cleanText_def falsy_def js_string_def trim_def)
  then show "ai env reqbody = (AiBad400, [])"
    by (simp add: ai_def)
qed

theorem empty_input_rejected_witness:
  "trim ''   '' = []
   \<and> opt_prop (J (JObj [(''prompt'', JStr '' '')])) ''prompt'' = J (JStr '' '')
   \<and> trim '' '' = []
   \<and> search_with primarySearch (answering ''sk-1'' ''g-1'' ''cx-1'' paris_response) 0 10 init
        (QString ''   '') = (Bad400, init)
   \<and> ai (answering ''sk-1'' ''g-1'' ''cx-1'' paris_response) (J (JObj [(''prompt'', JStr '' '')]))
       = (AiBad400, [])"
proof -
  have h1: "trim ''   '' = []" by (simp add: js_defs)
  have h2: "opt_prop (J (JObj [(''prompt'', JStr '' '')])) ''prompt'' = J (JStr '' '')"
    by (simp add: js_defs)
  have h3: "trim '' '' = []" by (simp add: js_defs)
  from empty_input_rejected [where qp = "QString ''   ''" and P = primarySearch
      and env = "answering ''sk-1'' ''g-1'' ''cx-1'' paris_response" and t = 0 and t' = 10
      and st = init and reqbody = "J (JObj [(''prompt'', JStr '' '')])"] h1 h2 h3
  show ?thesis by simp
qed

text \<open>
  C10. The primary adapter returns no item, for every query. So in every state the
  process can reach, a call of \<open>GET /search\<close> that replies with an outcome replies
  with one of source \<open>google\<close> or \<open>openai\<close>, and stores no outcome of source
  \<open>primary\<close>.
\<close>

theorem primary_never_answers:
  "primarySearch q = Inr []
   \<and> (reachable st \<longrightarrow>
        (\<forall>v. fst (search env t t' st qp) = Fresh v \<or> fst (search env t t' st qp) = Cached (Some v)
           \<longrightarrow> (\<exists>items. v = Google items) \<or> (\<exists>answer. v = OpenAI answer))
      \<and> (\<forall>k items. CacheSet k (Primary items)
            \<notin> set (new_events st (snd (search env t t' st qp)))))"
proof (intro conjI impI)
  show "primarySearch q = Inr []" by (simp add: primarySearch_def)
next
  assume "reachable st"
  then have inv: "no_primary (cache st)" by (rule reachable_no_primary)
  have shape: "(\<exists>items. v = Google items) \<or> (\<exists>answer. v = OpenAI answer)"
    if "\<not> is_primary v" for v using that by (cases v) simp_all
  from search_reply_cases [OF inv, of env t t' qp] shape
  show "\<forall>v. fst (search env t t' st qp) = Fresh v \<or> fst (search env t t' st qp) = Cached (Some v)
           \<longrightarrow> (\<exists>items. v = Google items) \<or> (\<exists>answer. v = OpenAI answer)"
    by blast
  from search_reply_cases [OF inv, of env t t' qp]
  show "\<forall>k items. CacheSet k (Primary items)
            \<notin> set (new_events st (snd (search env t t' st qp)))"
    by fastforce
qed


theorem primary_never_answers_witness:
  "reachable init
   \<and> primarySearch ''rome'' = Inr []
   \<and> fst (search (answering ''sk-1'' [] [] paris_response) 0 10 init (QString ''rome''))
       = Fresh (OpenAI ''Paris.'')
   \<and> CacheSet ''rome'' (Primary [paris_item])
       \<notin> set (new_events init
           (snd (search (answering ''sk-1'' [] [] paris_response) 0 10 init (QString ''rome''))))"
proof -
  have h: "reachable init" by (rule reachable.start)
  have r: "fst (search (answering ''sk-1'' [] [] paris_response) 0 10 init (QString ''rome''))
       = Fresh (OpenAI ''Paris.'')"
    by (simp add: run_defs ex_defs js_defs)
  from primary_never_answers [where q = "''rome''" and st = init
      and env = "answering ''sk-1'' [] [] paris_response" and t = 0 and t' = 10
      and qp = "QString ''rome''"] h r
  show ?thesis by simp
qed

end
